theory Spec2Isabelle
  imports Main
begin

section \<open>The fraud-case tools of agent.py\<close>

text \<open>
  The two tools of \<^verbatim>\<open>backend/src/agent.py\<close>, \<^verbatim>\<open>lookup_customer\<close> and
  \<^verbatim>\<open>resolve_fraud_case\<close>, work on a JSON file holding a list of objects and on the
  per-call \<^verbatim>\<open>Userdata\<close>. Both are embedded as functions that take the userdata and the
  file system state and return the tool's string together with the new userdata and the
  new file system state.

  Strings are lists of characters; a character stands for a code point below 256.
  The file is taken to exist and to hold a list of objects that carry the seven
  fields of \<^verbatim>\<open>FraudCase\<close> that have no default, with string values, and possibly the two
  fields that have one (an object of another shape makes \<^verbatim>\<open>item["userName"]\<close> or
  \<^verbatim>\<open>FraudCase(**found_record)\<close> raise, which is outside this model).
\<close>

subsection \<open>Strings: \<^verbatim>\<open>str.lower\<close>, \<^verbatim>\<open>str.strip\<close>, \<^verbatim>\<open>in\<close>\<close>

definition lower_char :: "char \<Rightarrow> char" where
  "lower_char c =
     (let n = (of_char c :: nat)
      in if (65 \<le> n \<and> n \<le> 90) \<or> (192 \<le> n \<and> n \<le> 222 \<and> n \<noteq> 215)
         then char_of (n + 32) else c)"

definition lower :: "string \<Rightarrow> string" where
  "lower s = map lower_char s"

definition isspace :: "char \<Rightarrow> bool" where
  "isspace c =
     (let n = (of_char c :: nat)
      in (9 \<le> n \<and> n \<le> 13) \<or> (28 \<le> n \<and> n \<le> 32) \<or> n = 133 \<or> n = 160)"

definition strip :: "string \<Rightarrow> string" where
  "strip s = rev (dropWhile isspace (rev (dropWhile isspace s)))"

fun starts_with :: "string \<Rightarrow> string \<Rightarrow> bool" where
  "starts_with [] t = True"
| "starts_with (a # s) [] = False"
| "starts_with (a # s) (b # t) = (a = b \<and> starts_with s t)"

text \<open>\<^verbatim>\<open>s in t\<close> on strings: \<open>s\<close> occurs in \<open>t\<close> as a contiguous block.\<close>

fun str_in :: "string \<Rightarrow> string \<Rightarrow> bool" where
  "str_in s [] = (s = [])"
| "str_in s (b # t) = (starts_with s (b # t) \<or> str_in s t)"

subsection \<open>Data\<close>

text \<open>The dataclass \<^verbatim>\<open>FraudCase\<close>.\<close>

record FraudCase =
  userName :: string
  securityIdentifier :: string
  cardEnding :: string
  transactionName :: string
  transactionAmount :: string
  transactionTime :: string
  transactionSource :: string
  case_status :: string
  "notes" :: string

text \<open>
  An object of the JSON file. The keys \<^verbatim>\<open>case_status\<close> and \<^verbatim>\<open>notes\<close> may be absent,
  since the dataclass has defaults for them.
\<close>

record db_item =
  js_userName :: string
  js_securityIdentifier :: string
  js_cardEnding :: string
  js_transactionName :: string
  js_transactionAmount :: string
  js_transactionTime :: string
  js_transactionSource :: string
  js_case_status :: "string option"
  js_notes :: "string option"

text \<open>\<^verbatim>\<open>FraudCase(**item)\<close>: the constructor, with the defaults of the dataclass.\<close>

definition FraudCase_init :: "db_item \<Rightarrow> FraudCase" where
  "FraudCase_init item =
     \<lparr> userName = js_userName item,
       securityIdentifier = js_securityIdentifier item,
       cardEnding = js_cardEnding item,
       transactionName = js_transactionName item,
       transactionAmount = js_transactionAmount item,
       transactionTime = js_transactionTime item,
       transactionSource = js_transactionSource item,
       case_status = (case js_case_status item of None \<Rightarrow> ''pending_review'' | Some s \<Rightarrow> s),
       notes = (case js_notes item of None \<Rightarrow> [] | Some s \<Rightarrow> s) \<rparr>"

text \<open>\<^verbatim>\<open>asdict(case)\<close>: all nine keys are present.\<close>

definition asdict :: "FraudCase \<Rightarrow> db_item" where
  "asdict c =
     \<lparr> js_userName = userName c,
       js_securityIdentifier = securityIdentifier c,
       js_cardEnding = cardEnding c,
       js_transactionName = transactionName c,
       js_transactionAmount = transactionAmount c,
       js_transactionTime = transactionTime c,
       js_transactionSource = transactionSource c,
       js_case_status = Some (case_status c),
       js_notes = Some (notes c) \<rparr>"

text \<open>The dataclass \<^verbatim>\<open>Userdata\<close>.\<close>

record Userdata =
  active_case :: "FraudCase option"

text \<open>
  The file \<^verbatim>\<open>fraud_db.json\<close>: its content, and the number of times \<^verbatim>\<open>save_db\<close> has
  written it.
\<close>

record world =
  db_file :: "db_item list"
  saves :: nat

definition load_db :: "world \<Rightarrow> db_item list" where
  "load_db w = db_file w"

definition save_db :: "world \<Rightarrow> db_item list \<Rightarrow> world" where
  "save_db w data = w\<lparr>db_file := data, saves := Suc (saves w)\<rparr>"

subsection \<open>\<^verbatim>\<open>lookup_customer\<close>\<close>

text \<open>The condition of the generator expression, for the stripped and lowered name.\<close>

definition name_matches :: "string \<Rightarrow> db_item \<Rightarrow> bool" where
  "name_matches nm item =
     (str_in (lower (js_userName item)) nm \<or> str_in nm (lower (js_userName item)))"

definition found_message :: "db_item \<Rightarrow> string" where
  "found_message r =
     ''FOUND|SecurityID='' @ js_securityIdentifier r @ ''|'' @
     ''Amount='' @ js_transactionAmount r @ ''|'' @
     ''Name='' @ js_transactionName r @ ''|'' @
     ''Source='' @ js_transactionSource r @ ''|'' @
     ''Time='' @ js_transactionTime r"

definition lookup_customer :: "Userdata \<Rightarrow> string \<Rightarrow> world \<Rightarrow> string \<times> Userdata \<times> world" where
  "lookup_customer ud name w =
     (let data = load_db w;
          nm = lower (strip name)
      in case find (name_matches nm) data of
           None \<Rightarrow> (''NO_MATCH'', ud, w)
         | Some found_record \<Rightarrow>
             (found_message found_record,
              ud\<lparr>active_case := Some (FraudCase_init found_record)\<rparr>,
              w))"

subsection \<open>\<^verbatim>\<open>resolve_fraud_case\<close>\<close>

text \<open>
  The loop over \<^verbatim>\<open>enumerate(data)\<close>: the first object whose \<^verbatim>\<open>userName\<close> equals the
  case's is replaced by \<^verbatim>\<open>asdict(case)\<close>, and the loop stops there.
\<close>

fun update_db :: "FraudCase \<Rightarrow> db_item list \<Rightarrow> db_item list" where
  "update_db c [] = []"
| "update_db c (item # rest) =
     (if js_userName item = userName c then asdict c # rest else item # update_db c rest)"

definition resolve_message :: "string \<Rightarrow> FraudCase \<Rightarrow> string" where
  "resolve_message status c =
     (if status = ''confirmed_fraud''
      then ''UPDATED_FRAUD|Card '' @ cardEnding c @ '' has been blocked.''
      else ''UPDATED_SAFE|Transaction marked legitimate.'')"

definition resolve_fraud_case ::
    "Userdata \<Rightarrow> string \<Rightarrow> string \<Rightarrow> world \<Rightarrow> string \<times> Userdata \<times> world" where
  "resolve_fraud_case ud status nts w =
     (case active_case ud of
        None \<Rightarrow> (''ERROR: No case loaded.'', ud, w)
      | Some c0 \<Rightarrow>
          (let c = c0\<lparr>case_status := status, notes := nts\<rparr>;
               data = load_db w;
               w' = save_db w (update_db c data)
           in (resolve_message status c, ud\<lparr>active_case := Some c\<rparr>, w')))"

subsection \<open>Example data\<close>

definition john_item :: db_item where
  "john_item =
     \<lparr> js_userName = ''John'', js_securityIdentifier = ''1234'', js_cardEnding = ''4242'',
       js_transactionName = ''ABC Industry'', js_transactionAmount = ''$1500'',
       js_transactionTime = ''2 AM'', js_transactionSource = ''alibaba.com'',
       js_case_status = Some ''pending_review'', js_notes = Some [] \<rparr>"

definition jane_item :: db_item where
  "jane_item =
     \<lparr> js_userName = ''Jane'', js_securityIdentifier = ''5678'', js_cardEnding = ''1111'',
       js_transactionName = ''Shop'', js_transactionAmount = ''$20'',
       js_transactionTime = ''noon'', js_transactionSource = ''shop.example'',
       js_case_status = None, js_notes = None \<rparr>"

definition john_case :: FraudCase where
  "john_case = FraudCase_init john_item"

definition no_session :: Userdata where
  "no_session = \<lparr>active_case = None\<rparr>"

definition john_session :: Userdata where
  "john_session = \<lparr>active_case = Some john_case\<rparr>"

definition example_world :: world where
  "example_world = \<lparr>db_file = [jane_item, john_item], saves = 0\<rparr>"

definition john_twin_item :: db_item where
  "john_twin_item =
     \<lparr> js_userName = ''John'', js_securityIdentifier = ''9090'', js_cardEnding = ''7777'',
       js_transactionName = ''Cafe'', js_transactionAmount = ''$5'',
       js_transactionTime = ''9 AM'', js_transactionSource = ''cafe.example'',
       js_case_status = Some ''pending_review'', js_notes = Some [] \<rparr>"

definition twin_world :: world where
  "twin_world = \<lparr>db_file = [jane_item, john_item, john_twin_item], saves = 0\<rparr>"

definition jane_only_world :: world where
  "jane_only_world = \<lparr>db_file = [jane_item], saves = 0\<rparr>"

text \<open>A session whose copy of John's case differs from the file in \<^verbatim>\<open>cardEnding\<close>.\<close>

definition stale_session :: Userdata where
  "stale_session = \<lparr>active_case = Some (john_case\<lparr>cardEnding := ''0000''\<rparr>)\<rparr>"

text \<open>A file in which John's case has been resolved as safe.\<close>

definition resolved_world :: world where
  "resolved_world =
     \<lparr>db_file = [john_item\<lparr>js_case_status := Some ''confirmed_safe'',
                          js_notes := Some ''User confirmed.''\<rparr>],
      saves = 1\<rparr>"

subsection \<open>Notions of the specification\<close>

text \<open>
  The specification's words for the matching rule: a string is a substring of another, and a
  record matches a query when its lowercased name is a substring of the query or the query is a
  substring of its lowercased name. These follow the specification, to be compared with
  \<open>str_in\<close> and \<open>name_matches\<close>, which follow the code.
\<close>

definition substring_of :: "string \<Rightarrow> string \<Rightarrow> bool" where
  "substring_of s t = (\<exists>p q. t = p @ s @ q)"

definition spec_match :: "string \<Rightarrow> db_item \<Rightarrow> bool" where
  "spec_match nm item =
     (substring_of (lower (js_userName item)) nm \<or> substring_of nm (lower (js_userName item)))"

text \<open>The fields of a stored record other than \<^verbatim>\<open>case_status\<close> and \<^verbatim>\<open>notes\<close>.\<close>

definition other_fields ::
    "db_item \<Rightarrow> string \<times> string \<times> string \<times> string \<times> string \<times> string \<times> string" where
  "other_fields item =
     (js_userName item, js_securityIdentifier item, js_cardEnding item, js_transactionName item,
      js_transactionAmount item, js_transactionTime item, js_transactionSource item)"

text \<open>The three values the specification allows for \<^verbatim>\<open>case_status\<close>.\<close>

definition valid_case_status :: "string \<Rightarrow> bool" where
  "valid_case_status s =
     (s = ''pending_review'' \<or> s = ''confirmed_safe'' \<or> s = ''confirmed_fraud'')"

text \<open>The status of a stored record, as \<^verbatim>\<open>FraudCase(**item)\<close> reads it.\<close>

definition stored_status :: "db_item \<Rightarrow> string" where
  "stored_status item = case_status (FraudCase_init item)"

section \<open>Properties\<close>

subsection \<open>The loop and the search\<close>

lemma update_db_no_match:
  "\<forall>x \<in> set data. js_userName x \<noteq> userName c \<Longrightarrow> update_db c data = data"
  by (induction data) auto

lemma update_db_first_match:
  "\<forall>x \<in> set pre. js_userName x \<noteq> userName c \<Longrightarrow> js_userName r = userName c \<Longrightarrow>
   update_db c (pre @ r # post) = pre @ asdict c # post"
  by (induction pre) auto

lemma length_update_db: "length (update_db c data) = length data"
  by (induction data) auto

lemma update_db_idem: "update_db c (update_db c data) = update_db c data"
  by (induction data) (auto simp: asdict_def)

lemma update_db_nth:
  "j < length data \<Longrightarrow> update_db c data ! j = data ! j \<or> update_db c data ! j = asdict c"
proof (induction data arbitrary: j)
  case Nil
  then show ?case by simp
next
  case (Cons item rest)
  then show ?case by (cases j) auto
qed

lemma update_db_set:
  "x \<in> set (update_db c data) \<Longrightarrow> x \<in> set data \<or> x = asdict c"
  by (induction data) (auto split: if_splits)

lemma find_first_match:
  "\<forall>x \<in> set pre. \<not> P x \<Longrightarrow> P r \<Longrightarrow> find P (pre @ r # post) = Some r"
  by (induction pre) auto

lemma find_no_match: "\<forall>x \<in> set xs. \<not> P x \<Longrightarrow> find P xs = None"
  by (induction xs) auto

lemma find_SomeD: "find P xs = Some r \<Longrightarrow> r \<in> set xs \<and> P r"
  by (induction xs) (auto split: if_splits)

lemma find_split:
  "find P xs = Some r \<Longrightarrow> \<exists>pre post. xs = pre @ r # post \<and> (\<forall>x \<in> set pre. \<not> P x)"
proof (induction xs)
  case Nil
  then show ?case by simp
next
  case (Cons a xs)
  show ?case
  proof (cases "P a")
    case True
    with Cons.prems have "a = r" by simp
    then have "a # xs = [] @ r # xs \<and> (\<forall>x \<in> set []. \<not> P x)" by simp
    then show ?thesis by blast
  next
    case False
    with Cons obtain pre post where "xs = pre @ r # post" "\<forall>x \<in> set pre. \<not> P x" by auto
    with False have "a # xs = (a # pre) @ r # post \<and> (\<forall>x \<in> set (a # pre). \<not> P x)" by simp
    then show ?thesis by blast
  qed
qed

subsection \<open>Strings\<close>

lemma str_in_Nil: "str_in [] t"
  by (cases t) auto

lemma starts_with_iff: "starts_with s t \<longleftrightarrow> (\<exists>q. t = s @ q)"
  by (induction s t rule: starts_with.induct) auto

text \<open>The test of the code is the substring relation of the specification.\<close>

lemma str_in_iff: "str_in s t \<longleftrightarrow> substring_of s t"
  unfolding substring_of_def
proof (induction t)
  case Nil
  then show ?case by auto
next
  case (Cons b t)
  show ?case
  proof
    assume "str_in s (b # t)"
    then consider "starts_with s (b # t)" | "str_in s t" by auto
    then show "\<exists>p q. b # t = p @ s @ q"
    proof cases
      case 1
      then obtain q where "b # t = s @ q" by (auto simp: starts_with_iff)
      then have "b # t = [] @ s @ q" by simp
      then show ?thesis by blast
    next
      case 2
      then obtain p q where "t = p @ s @ q" using Cons.IH by blast
      then have "b # t = (b # p) @ s @ q" by simp
      then show ?thesis by blast
    qed
  next
    assume "\<exists>p q. b # t = p @ s @ q"
    then obtain p q where pq: "b # t = p @ s @ q" by blast
    show "str_in s (b # t)"
    proof (cases p)
      case Nil
      with pq have "starts_with s (b # t)" by (auto simp: starts_with_iff)
      then show ?thesis by simp
    next
      case (Cons a p')
      with pq have "t = p' @ s @ q" by simp
      then have "str_in s t" using Cons.IH by blast
      then show ?thesis by simp
    qed
  qed
qed

lemma spec_match_iff: "spec_match nm item \<longleftrightarrow> name_matches nm item"
  by (simp add: spec_match_def name_matches_def str_in_iff)

lemma dropWhile_all: "(\<forall>x \<in> set (dropWhile P xs). P x) \<longleftrightarrow> (\<forall>x \<in> set xs. P x)"
  by (induction xs) auto

lemma strip_Nil_iff: "strip s = [] \<longleftrightarrow> (\<forall>c \<in> set s. isspace c)"
  by (simp add: strip_def dropWhile_eq_Nil_conv dropWhile_all)

text \<open>The stripped and lowered name is empty exactly for a name of white space only.\<close>

lemma blank_name_iff: "lower (strip name) = [] \<longleftrightarrow> (\<forall>c \<in> set name. isspace c)"
  by (simp add: lower_def strip_Nil_iff)

subsection \<open>The two tools, unfolded\<close>

lemma resolve_message_update [simp]:
  "resolve_message st (c\<lparr>case_status := a, notes := b\<rparr>) = resolve_message st c"
  by (simp add: resolve_message_def)

lemma resolve_fraud_case_Some:
  "active_case ud = Some c \<Longrightarrow>
   resolve_fraud_case ud st nt w =
     (resolve_message st c,
      ud\<lparr>active_case := Some (c\<lparr>case_status := st, notes := nt\<rparr>)\<rparr>,
      w\<lparr>db_file := update_db (c\<lparr>case_status := st, notes := nt\<rparr>) (db_file w),
        saves := Suc (saves w)\<rparr>)"
  by (simp add: resolve_fraud_case_def load_db_def save_db_def Let_def)

lemma lookup_customer_Some:
  "find (name_matches (lower (strip name))) (db_file w) = Some r \<Longrightarrow>
   lookup_customer ud name w =
     (found_message r, ud\<lparr>active_case := Some (FraudCase_init r)\<rparr>, w)"
  by (simp add: lookup_customer_def load_db_def Let_def)

lemma lookup_customer_None:
  "find (name_matches (lower (strip name))) (db_file w) = None \<Longrightarrow>
   lookup_customer ud name w = (''NO_MATCH'', ud, w)"
  by (simp add: lookup_customer_def load_db_def Let_def)

lemma stored_status_asdict: "stored_status (asdict c) = case_status c"
  by (simp add: stored_status_def FraudCase_init_def asdict_def)

lemma other_fields_asdict_update:
  "other_fields (asdict (c\<lparr>case_status := st, notes := nt\<rparr>)) = other_fields (asdict c)"
  by (simp add: other_fields_def asdict_def)

lemma asdict_FraudCase_init:
  "asdict ((FraudCase_init r)\<lparr>case_status := st, notes := nt\<rparr>) =
     r\<lparr>js_case_status := Some st, js_notes := Some nt\<rparr>"
  by (simp add: asdict_def FraudCase_init_def)

subsection \<open>Resolving with no case loaded\<close>

text \<open>
  C1, as the code has it. \<^verbatim>\<open>Userdata\<close> has the field \<^verbatim>\<open>active_case\<close> and nothing else:
  there is no \<^verbatim>\<open>verified\<close> flag, and the comparison of the security identifier is left
  to the dialogue. When no case is loaded, \<^verbatim>\<open>resolve_fraud_case\<close> returns
  \<^verbatim>\<open>"ERROR: No case loaded."\<close>, and neither the userdata nor the file changes: the file
  is not written.
\<close>

theorem resolve_without_active_case:
  assumes "active_case ud = None"
  shows "resolve_fraud_case ud status nts w = (''ERROR: No case loaded.'', ud, w)"
  using assms by (simp add: resolve_fraud_case_def)

theorem resolve_without_active_case_witness:
  "active_case no_session = None \<and>
   resolve_fraud_case no_session ''confirmed_safe'' ''User confirmed.'' example_world
     = (''ERROR: No case loaded.'', no_session, example_world)"
proof -
  have h: "active_case no_session = None" by (simp add: no_session_def)
  show ?thesis
    using h resolve_without_active_case [OF h, of "''confirmed_safe''" "''User confirmed.''" example_world]
    by simp
qed

text \<open>
  C1 as stated fails: in a session where \<^verbatim>\<open>lookup_customer\<close> has found John and no
  identifier has been compared, \<^verbatim>\<open>resolve_fraud_case\<close> answers \<^verbatim>\<open>UPDATED_FRAUD\<close> and
  writes the file.
\<close>

theorem resolve_unverified_counterexample:
  "active_case (fst (snd (lookup_customer no_session ''john'' example_world))) = Some john_case \<and>
   fst (resolve_fraud_case (fst (snd (lookup_customer no_session ''john'' example_world)))
          ''confirmed_fraud'' ''User denied transaction.''
          (snd (snd (lookup_customer no_session ''john'' example_world))))
     = ''UPDATED_FRAUD|Card 4242 has been blocked.'' \<and>
   snd (snd (resolve_fraud_case (fst (snd (lookup_customer no_session ''john'' example_world)))
          ''confirmed_fraud'' ''User denied transaction.''
          (snd (snd (lookup_customer no_session ''john'' example_world)))))
     = \<lparr>db_file = [jane_item,
          john_item\<lparr>js_case_status := Some ''confirmed_fraud'',
                    js_notes := Some ''User denied transaction.''\<rparr>],
        saves = 1\<rparr>"
  by code_simp

subsection \<open>Resolving twice\<close>

text \<open>
  C2, as the code has it. \<^verbatim>\<open>Userdata\<close> has no \<^verbatim>\<open>resolved\<close> flag and the tool has no
  \<^verbatim>\<open>ALREADY_RESOLVED\<close> answer. In a session with a case loaded, a second call of
  \<^verbatim>\<open>resolve_fraud_case\<close> after a first one answers \<^verbatim>\<open>UPDATED_FRAUD\<close> or \<^verbatim>\<open>UPDATED_SAFE\<close>
  according to its own status, and writes the file again: two calls are two writes. When the
  second call repeats the status and the notes of the first, it leaves the content of the file
  and the userdata as the first call left them.
\<close>

theorem resolve_twice:
  assumes "active_case ud = Some c"
  shows "fst (resolve_fraud_case (fst (snd (resolve_fraud_case ud st nt w))) st2 nt2
                (snd (snd (resolve_fraud_case ud st nt w))))
           = (if st2 = ''confirmed_fraud''
              then ''UPDATED_FRAUD|Card '' @ cardEnding c @ '' has been blocked.''
              else ''UPDATED_SAFE|Transaction marked legitimate.'') \<and>
         saves (snd (snd (resolve_fraud_case (fst (snd (resolve_fraud_case ud st nt w))) st2 nt2
                (snd (snd (resolve_fraud_case ud st nt w))))))
           = saves w + 2 \<and>
         (st2 = st \<and> nt2 = nt \<longrightarrow>
            db_file (snd (snd (resolve_fraud_case (fst (snd (resolve_fraud_case ud st nt w))) st2 nt2
                (snd (snd (resolve_fraud_case ud st nt w))))))
              = db_file (snd (snd (resolve_fraud_case ud st nt w))) \<and>
            fst (snd (resolve_fraud_case (fst (snd (resolve_fraud_case ud st nt w))) st2 nt2
                (snd (snd (resolve_fraud_case ud st nt w)))))
              = fst (snd (resolve_fraud_case ud st nt w)))"
proof -
  let ?c = "c\<lparr>case_status := st, notes := nt\<rparr>"
  let ?ud = "ud\<lparr>active_case := Some ?c\<rparr>"
  let ?w = "w\<lparr>db_file := update_db ?c (db_file w), saves := Suc (saves w)\<rparr>"
  have first: "resolve_fraud_case ud st nt w = (resolve_message st c, ?ud, ?w)"
    by (rule resolve_fraud_case_Some [OF assms])
  have "active_case ?ud = Some ?c" by simp
  from resolve_fraud_case_Some [OF this, of st2 nt2 ?w]
  have second: "resolve_fraud_case ?ud st2 nt2 ?w =
      (resolve_message st2 c,
       ?ud\<lparr>active_case := Some (?c\<lparr>case_status := st2, notes := nt2\<rparr>)\<rparr>,
       ?w\<lparr>db_file := update_db (?c\<lparr>case_status := st2, notes := nt2\<rparr>) (db_file ?w),
          saves := Suc (saves ?w)\<rparr>)"
    by simp
  have msg: "resolve_message st2 c =
      (if st2 = ''confirmed_fraud''
       then ''UPDATED_FRAUD|Card '' @ cardEnding c @ '' has been blocked.''
       else ''UPDATED_SAFE|Transaction marked legitimate.'')"
    by (simp add: resolve_message_def)
  show ?thesis
    unfolding first fst_conv snd_conv second msg
    by (simp add: update_db_idem)
qed

theorem resolve_twice_witness:
  "active_case john_session = Some john_case \<and>
   cardEnding john_case = ''4242'' \<and>
   fst (resolve_fraud_case
          (fst (snd (resolve_fraud_case john_session ''confirmed_fraud'' ''no'' example_world)))
          ''confirmed_fraud'' ''no''
          (snd (snd (resolve_fraud_case john_session ''confirmed_fraud'' ''no'' example_world))))
     = ''UPDATED_FRAUD|Card 4242 has been blocked.'' \<and>
   saves (snd (snd (resolve_fraud_case
          (fst (snd (resolve_fraud_case john_session ''confirmed_fraud'' ''no'' example_world)))
          ''confirmed_fraud'' ''no''
          (snd (snd (resolve_fraud_case john_session ''confirmed_fraud'' ''no'' example_world))))))
     = saves example_world + 2 \<and>
   db_file (snd (snd (resolve_fraud_case
          (fst (snd (resolve_fraud_case john_session ''confirmed_fraud'' ''no'' example_world)))
          ''confirmed_fraud'' ''no''
          (snd (snd (resolve_fraud_case john_session ''confirmed_fraud'' ''no'' example_world))))))
     = db_file (snd (snd (resolve_fraud_case john_session ''confirmed_fraud'' ''no'' example_world)))"
proof -
  have a: "active_case john_session = Some john_case" by code_simp
  have b: "cardEnding john_case = ''4242''" by code_simp
  from resolve_twice [OF a, of "''confirmed_fraud''" "''no''" example_world "''confirmed_fraud''" "''no''"]
  show ?thesis using a b by simp
qed

text \<open>
  C2 as stated fails: the second of two equal calls answers \<^verbatim>\<open>UPDATED_SAFE\<close>, and the file
  has been written twice.
\<close>

theorem resolve_twice_counterexample:
  "fst (resolve_fraud_case
          (fst (snd (resolve_fraud_case john_session ''confirmed_safe'' ''User confirmed.'' example_world)))
          ''confirmed_safe'' ''User confirmed.''
          (snd (snd (resolve_fraud_case john_session ''confirmed_safe'' ''User confirmed.'' example_world))))
     = ''UPDATED_SAFE|Transaction marked legitimate.'' \<and>
   saves (snd (snd (resolve_fraud_case
          (fst (snd (resolve_fraud_case john_session ''confirmed_safe'' ''User confirmed.'' example_world)))
          ''confirmed_safe'' ''User confirmed.''
          (snd (snd (resolve_fraud_case john_session ''confirmed_safe'' ''User confirmed.'' example_world))))))
     = 2"
  by code_simp

subsection \<open>Resolving a case that is no longer in the file\<close>

text \<open>
  C3, as the code has it. The tool has no \<^verbatim>\<open>STALE_CASE\<close> answer and the loop has no
  \<^verbatim>\<open>else\<close> branch. When no record of the file has the \<^verbatim>\<open>userName\<close> of the active case,
  \<^verbatim>\<open>resolve_fraud_case\<close> answers \<^verbatim>\<open>UPDATED_FRAUD\<close> or \<^verbatim>\<open>UPDATED_SAFE\<close> according to the
  status, writes the file once with its content unchanged, and sets the status and the notes
  of the session's active case.
\<close>

theorem resolve_no_matching_record:
  assumes "active_case ud = Some c"
    and "\<forall>x \<in> set (db_file w). js_userName x \<noteq> userName c"
  shows "resolve_fraud_case ud st nt w =
           (if st = ''confirmed_fraud''
            then ''UPDATED_FRAUD|Card '' @ cardEnding c @ '' has been blocked.''
            else ''UPDATED_SAFE|Transaction marked legitimate.'',
            ud\<lparr>active_case := Some (c\<lparr>case_status := st, notes := nt\<rparr>)\<rparr>,
            w\<lparr>saves := Suc (saves w)\<rparr>)"
  using resolve_fraud_case_Some [OF assms(1), of st nt w]
    update_db_no_match [of "db_file w" "c\<lparr>case_status := st, notes := nt\<rparr>"] assms(2)
  by (simp add: resolve_message_def)

theorem resolve_no_matching_record_witness:
  "active_case john_session = Some john_case \<and>
   cardEnding john_case = ''4242'' \<and>
   db_file jane_only_world = [jane_item] \<and>
   js_userName jane_item \<noteq> userName john_case \<and>
   resolve_fraud_case john_session ''confirmed_fraud'' ''no'' jane_only_world =
     (''UPDATED_FRAUD|Card 4242 has been blocked.'',
      john_session\<lparr>active_case := Some (john_case\<lparr>case_status := ''confirmed_fraud'', notes := ''no''\<rparr>)\<rparr>,
      jane_only_world\<lparr>saves := Suc (saves jane_only_world)\<rparr>)"
proof -
  have a: "active_case john_session = Some john_case" by code_simp
  have b: "\<forall>x \<in> set (db_file jane_only_world). js_userName x \<noteq> userName john_case" by code_simp
  have c: "db_file jane_only_world = [jane_item]" by code_simp
  have d: "js_userName jane_item \<noteq> userName john_case" by code_simp
  have e: "cardEnding john_case = ''4242''" by code_simp
  from resolve_no_matching_record [OF a b, of "''confirmed_fraud''" "''no''"]
  show ?thesis using a c d e by simp
qed

text \<open>
  C3 as stated fails: with John's case loaded and a file that holds Jane's record only, the
  answer is \<^verbatim>\<open>UPDATED_SAFE\<close> and the file is written.
\<close>

theorem resolve_no_matching_record_counterexample:
  "resolve_fraud_case john_session ''confirmed_safe'' ''User confirmed.'' jane_only_world =
     (''UPDATED_SAFE|Transaction marked legitimate.'',
      \<lparr>active_case = Some (john_case\<lparr>case_status := ''confirmed_safe'', notes := ''User confirmed.''\<rparr>)\<rparr>,
      \<lparr>db_file = [jane_item], saves = 1\<rparr>)"
  by code_simp

subsection \<open>Matching names\<close>

text \<open>
  C4, as the code has it. The query is stripped of leading and trailing white space and
  lowered before it is compared. With \<open>Q'\<close> the stripped and lowered query: when a record of
  the file is the first in file order whose lowered name is a substring of \<open>Q'\<close> or has \<open>Q'\<close>
  as a substring, \<^verbatim>\<open>lookup_customer\<close> answers \<^verbatim>\<open>FOUND\<close> with that record and loads it; when no
  record of the file is in that relation with \<open>Q'\<close>, it answers \<^verbatim>\<open>NO_MATCH\<close>.
\<close>

theorem lookup_customer_matching:
  "(db_file w = pre @ r # post \<and> (\<forall>x \<in> set pre. \<not> spec_match (lower (strip q)) x) \<and>
      spec_match (lower (strip q)) r \<longrightarrow>
      lookup_customer ud q w =
        (found_message r, ud\<lparr>active_case := Some (FraudCase_init r)\<rparr>, w)) \<and>
   ((\<forall>x \<in> set (db_file w). \<not> spec_match (lower (strip q)) x) \<longrightarrow>
      lookup_customer ud q w = (''NO_MATCH'', ud, w))"
proof (intro conjI impI)
  assume a: "db_file w = pre @ r # post \<and> (\<forall>x \<in> set pre. \<not> spec_match (lower (strip q)) x) \<and>
      spec_match (lower (strip q)) r"
  then have "find (name_matches (lower (strip q))) (db_file w) = Some r"
    by (simp add: spec_match_iff find_first_match)
  then show "lookup_customer ud q w =
        (found_message r, ud\<lparr>active_case := Some (FraudCase_init r)\<rparr>, w)"
    by (rule lookup_customer_Some)
next
  assume "\<forall>x \<in> set (db_file w). \<not> spec_match (lower (strip q)) x"
  then have "find (name_matches (lower (strip q))) (db_file w) = None"
    by (simp add: spec_match_iff find_no_match)
  then show "lookup_customer ud q w = (''NO_MATCH'', ud, w)"
    by (rule lookup_customer_None)
qed

theorem lookup_customer_matching_witness:
  "db_file example_world = [jane_item] @ john_item # [] \<and>
   \<not> spec_match (lower (strip '' JOHN doe '')) jane_item \<and>
   spec_match (lower (strip '' JOHN doe '')) john_item \<and>
   lookup_customer no_session '' JOHN doe '' example_world =
     (found_message john_item, no_session\<lparr>active_case := Some (FraudCase_init john_item)\<rparr>,
      example_world) \<and>
   \<not> spec_match (lower (strip ''bob'')) jane_item \<and>
   \<not> spec_match (lower (strip ''bob'')) john_item \<and>
   lookup_customer no_session ''bob'' example_world = (''NO_MATCH'', no_session, example_world)"
proof -
  have a: "db_file example_world = [jane_item] @ john_item # []" by code_simp
  have b: "\<not> spec_match (lower (strip '' JOHN doe '')) jane_item"
    unfolding spec_match_iff by code_simp
  have c: "spec_match (lower (strip '' JOHN doe '')) john_item"
    unfolding spec_match_iff by code_simp
  have d: "\<not> spec_match (lower (strip ''bob'')) jane_item"
    "\<not> spec_match (lower (strip ''bob'')) john_item"
    unfolding spec_match_iff by code_simp+
  have b': "\<forall>x \<in> set [jane_item]. \<not> spec_match (lower (strip '' JOHN doe '')) x"
    using b by simp
  have d': "\<forall>x \<in> set (db_file example_world). \<not> spec_match (lower (strip ''bob'')) x"
    unfolding a using d by simp
  from lookup_customer_matching [of example_world "[jane_item]" john_item "[]" "'' JOHN doe ''" no_session]
    lookup_customer_matching [of example_world _ _ _ "''bob''" no_session]
  show ?thesis using a b b' c d d' by blast
qed

text \<open>
  C4 as stated fails: the lowered query of one space neither contains nor is contained in
  \<^verbatim>\<open>jane\<close> or \<^verbatim>\<open>john\<close>, and \<^verbatim>\<open>lookup_customer\<close> answers \<^verbatim>\<open>FOUND\<close> with the first record,
  since the stripped query is empty.
\<close>

theorem lookup_unstripped_counterexample:
  "db_file example_world = [jane_item, john_item] \<and>
   \<not> name_matches (lower '' '') jane_item \<and>
   \<not> name_matches (lower '' '') john_item \<and>
   fst (lookup_customer no_session '' '' example_world) =
     ''FOUND|SecurityID=5678|Amount=$20|Name=Shop|Source=shop.example|Time=noon''"
  by code_simp

subsection \<open>What a resolution writes\<close>

text \<open>
  C5, as the code has it. The matching record is replaced as a whole by
  \<^verbatim>\<open>asdict(case)\<close>, the session's copy with its status and notes set. So a successful
  \<^verbatim>\<open>resolve_fraud_case\<close> leaves the number of records and every field of every other record
  unchanged; in the updated record \<^verbatim>\<open>case_status\<close> and \<^verbatim>\<open>notes\<close> are the arguments, and the
  other fields are those of the session's copy, whatever the file held.
\<close>

theorem resolve_replaces_record_by_snapshot:
  assumes "active_case ud = Some c"
    and "db_file w = pre @ r # post"
    and "\<forall>x \<in> set pre. js_userName x \<noteq> userName c"
    and "js_userName r = userName c"
  shows "length (db_file (snd (snd (resolve_fraud_case ud st nt w)))) = length (db_file w) \<and>
         (\<forall>j < length (db_file w). j \<noteq> length pre \<longrightarrow>
            db_file (snd (snd (resolve_fraud_case ud st nt w))) ! j = db_file w ! j) \<and>
         other_fields (db_file (snd (snd (resolve_fraud_case ud st nt w))) ! length pre)
           = other_fields (asdict c) \<and>
         js_case_status (db_file (snd (snd (resolve_fraud_case ud st nt w))) ! length pre) = Some st \<and>
         js_notes (db_file (snd (snd (resolve_fraud_case ud st nt w))) ! length pre) = Some nt"
proof -
  let ?c = "c\<lparr>case_status := st, notes := nt\<rparr>"
  have db: "db_file (snd (snd (resolve_fraud_case ud st nt w))) = pre @ asdict ?c # post"
    using resolve_fraud_case_Some [OF assms(1), of st nt w]
      update_db_first_match [of pre ?c r post] assms(2-4)
    by simp
  have others: "\<forall>j < length (db_file w). j \<noteq> length pre \<longrightarrow>
      (pre @ asdict ?c # post) ! j = db_file w ! j"
    unfolding assms(2) by (auto simp: nth_append nth_Cons split: nat.splits)
  show ?thesis
    unfolding db using others assms(2)
    by (simp add: other_fields_asdict_update) (simp add: asdict_def)
qed

theorem resolve_replaces_record_by_snapshot_witness:
  "active_case john_session = Some john_case \<and>
   db_file twin_world = [jane_item] @ john_item # [john_twin_item] \<and>
   js_userName jane_item \<noteq> userName john_case \<and>
   js_userName john_item = userName john_case \<and>
   length (db_file (snd (snd (resolve_fraud_case john_session ''confirmed_safe'' ''ok'' twin_world)))) = 3 \<and>
   db_file (snd (snd (resolve_fraud_case john_session ''confirmed_safe'' ''ok'' twin_world))) ! 0 = jane_item \<and>
   db_file (snd (snd (resolve_fraud_case john_session ''confirmed_safe'' ''ok'' twin_world))) ! 2 = john_twin_item \<and>
   other_fields (db_file (snd (snd (resolve_fraud_case john_session ''confirmed_safe'' ''ok'' twin_world))) ! 1)
     = other_fields john_item \<and>
   js_case_status (db_file (snd (snd (resolve_fraud_case john_session ''confirmed_safe'' ''ok'' twin_world))) ! 1)
     = Some ''confirmed_safe''"
proof -
  have a: "active_case john_session = Some john_case" by code_simp
  have b: "db_file twin_world = [jane_item] @ john_item # [john_twin_item]" by code_simp
  have c: "\<forall>x \<in> set [jane_item]. js_userName x \<noteq> userName john_case" by code_simp
  have c': "js_userName jane_item \<noteq> userName john_case" by code_simp
  have d: "js_userName john_item = userName john_case" by code_simp
  have e: "other_fields (asdict john_case) = other_fields john_item" by code_simp
  have f: "db_file twin_world ! 0 = jane_item" "db_file twin_world ! 2 = john_twin_item"
    "length (db_file twin_world) = 3" by code_simp+
  from resolve_replaces_record_by_snapshot [OF a b c d, of "''confirmed_safe''" "''ok''"]
  show ?thesis using a b c' d e f by simp
qed

text \<open>
  C5 as stated fails: when the session's copy of John's case has another \<^verbatim>\<open>cardEnding\<close> than
  the file, the resolution writes the copy's \<^verbatim>\<open>cardEnding\<close> into the file.
\<close>

theorem resolve_stale_snapshot_counterexample:
  "active_case stale_session = Some (john_case\<lparr>cardEnding := ''0000''\<rparr>) \<and>
   js_cardEnding (db_file example_world ! 1) = ''4242'' \<and>
   js_cardEnding (db_file (snd (snd (resolve_fraud_case stale_session ''confirmed_safe''
        ''User confirmed.'' example_world))) ! 1) = ''0000''"
  by code_simp

text \<open>
  When the copy was taken by \<^verbatim>\<open>lookup_customer\<close> from the same content of the file, the copy
  agrees with the record it came from, and the record found is the first with its name: the
  resolution then changes \<^verbatim>\<open>case_status\<close> and \<^verbatim>\<open>notes\<close> of that record and nothing else.
\<close>

lemma lookup_then_resolve:
  assumes "find (name_matches (lower (strip name))) (db_file w) = Some r"
  shows "\<exists>pre post. db_file w = pre @ r # post \<and>
     db_file (snd (snd (resolve_fraud_case (fst (snd (lookup_customer ud name w))) st nt
        (snd (snd (lookup_customer ud name w)))))) =
       pre @ r\<lparr>js_case_status := Some st, js_notes := Some nt\<rparr> # post"
proof -
  let ?P = "name_matches (lower (strip name))"
  from find_split [OF assms] obtain pre post where
    split: "db_file w = pre @ r # post" and pre: "\<forall>x \<in> set pre. \<not> ?P x" by blast
  have "?P r" using find_SomeD [OF assms] by simp
  then have names: "\<forall>x \<in> set pre. js_userName x \<noteq> js_userName r"
    using pre by (auto simp: name_matches_def)
  let ?c = "(FraudCase_init r)\<lparr>case_status := st, notes := nt\<rparr>"
  have un: "userName ?c = js_userName r" by (simp add: FraudCase_init_def)
  have lk: "lookup_customer ud name w =
      (found_message r, ud\<lparr>active_case := Some (FraudCase_init r)\<rparr>, w)"
    by (rule lookup_customer_Some [OF assms])
  have ac: "active_case (ud\<lparr>active_case := Some (FraudCase_init r)\<rparr>) = Some (FraudCase_init r)"
    by simp
  have upd: "update_db ?c (db_file w) = pre @ asdict ?c # post"
    unfolding split
  proof (rule update_db_first_match)
    show "\<forall>x \<in> set pre. js_userName x \<noteq> userName ?c" unfolding un by (rule names)
    show "js_userName r = userName ?c" unfolding un by (rule refl)
  qed
  have "db_file (snd (snd (resolve_fraud_case (ud\<lparr>active_case := Some (FraudCase_init r)\<rparr>) st nt w)))
      = update_db ?c (db_file w)"
    unfolding resolve_fraud_case_Some [OF ac] by simp
  then have "db_file (snd (snd (resolve_fraud_case (ud\<lparr>active_case := Some (FraudCase_init r)\<rparr>) st nt w)))
      = pre @ asdict ?c # post"
    unfolding upd .
  then show ?thesis
    unfolding lk fst_conv snd_conv asdict_FraudCase_init using split by blast
qed

subsection \<open>The values of the status\<close>

text \<open>
  C6, as the code has it. \<^verbatim>\<open>resolve_fraud_case\<close> checks neither its status argument nor the
  status the record has. If every record of the file has one of the three statuses and the
  status argument is \<^verbatim>\<open>confirmed_safe\<close> or \<^verbatim>\<open>confirmed_fraud\<close>, then after the call every
  record still has one of the three statuses, the number of records is unchanged and the status
  of each record is either what it was or the status argument; \<^verbatim>\<open>lookup_customer\<close> leaves the
  file as it is.
\<close>

theorem resolve_keeps_statuses_valid:
  assumes "\<forall>x \<in> set (db_file w). valid_case_status (stored_status x)"
    and "st = ''confirmed_safe'' \<or> st = ''confirmed_fraud''"
  shows "(\<forall>x \<in> set (db_file (snd (snd (resolve_fraud_case ud st nt w)))).
            valid_case_status (stored_status x)) \<and>
         length (db_file (snd (snd (resolve_fraud_case ud st nt w)))) = length (db_file w) \<and>
         (\<forall>j < length (db_file w).
            stored_status (db_file (snd (snd (resolve_fraud_case ud st nt w))) ! j)
              = stored_status (db_file w ! j) \<or>
            stored_status (db_file (snd (snd (resolve_fraud_case ud st nt w))) ! j) = st) \<and>
         snd (snd (lookup_customer ud name w)) = w"
proof (cases "active_case ud")
  case None
  have "resolve_fraud_case ud st nt w = (''ERROR: No case loaded.'', ud, w)"
    using None by (simp add: resolve_fraud_case_def)
  moreover have "snd (snd (lookup_customer ud name w)) = w"
    by (cases "find (name_matches (lower (strip name))) (db_file w)")
       (simp_all add: lookup_customer_None lookup_customer_Some)
  ultimately show ?thesis using assms(1) by simp
next
  case (Some c)
  let ?c = "c\<lparr>case_status := st, notes := nt\<rparr>"
  have db: "db_file (snd (snd (resolve_fraud_case ud st nt w))) = update_db ?c (db_file w)"
    using resolve_fraud_case_Some [OF Some, of st nt w] by simp
  have st: "stored_status (asdict ?c) = st" by (simp add: stored_status_asdict)
  have "valid_case_status st" using assms(2) by (auto simp: valid_case_status_def)
  then have 1: "\<forall>x \<in> set (update_db ?c (db_file w)). valid_case_status (stored_status x)"
    using assms(1) st update_db_set [of _ ?c "db_file w"] by metis
  have 2: "\<forall>j < length (db_file w).
      stored_status (update_db ?c (db_file w) ! j) = stored_status (db_file w ! j) \<or>
      stored_status (update_db ?c (db_file w) ! j) = st"
    using update_db_nth [of _ "db_file w" ?c] st by metis
  have 3: "snd (snd (lookup_customer ud name w)) = w"
    by (cases "find (name_matches (lower (strip name))) (db_file w)")
       (simp_all add: lookup_customer_None lookup_customer_Some)
  show ?thesis unfolding db using 1 2 3 by (simp add: length_update_db)
qed

theorem resolve_keeps_statuses_valid_witness:
  "db_file example_world = [jane_item, john_item] \<and>
   valid_case_status (stored_status jane_item) \<and>
   valid_case_status (stored_status john_item) \<and>
   valid_case_status (stored_status (db_file (snd (snd (resolve_fraud_case john_session
        ''confirmed_fraud'' ''no'' example_world))) ! 0)) \<and>
   stored_status (db_file (snd (snd (resolve_fraud_case john_session
        ''confirmed_fraud'' ''no'' example_world))) ! 1) = ''confirmed_fraud'' \<and>
   length (db_file (snd (snd (resolve_fraud_case john_session
        ''confirmed_fraud'' ''no'' example_world)))) = 2 \<and>
   snd (snd (lookup_customer john_session ''jane'' example_world)) = example_world"
proof -
  have a: "\<forall>x \<in> set (db_file example_world). valid_case_status (stored_status x)" by code_simp
  have b: "''confirmed_fraud'' = ''confirmed_safe'' \<or> ''confirmed_fraud'' = ''confirmed_fraud''"
    by simp
  have c: "db_file example_world = [jane_item, john_item]" by code_simp
  have d: "valid_case_status (stored_status jane_item)" "valid_case_status (stored_status john_item)"
    by code_simp+
  have e: "stored_status (db_file (snd (snd (resolve_fraud_case john_session
        ''confirmed_fraud'' ''no'' example_world))) ! 1) = ''confirmed_fraud''" by code_simp
  have f: "length (db_file example_world) = 2" by code_simp
  from resolve_keeps_statuses_valid [OF a b, of john_session "''no''" "''jane''"]
  have g: "(\<forall>x \<in> set (db_file (snd (snd (resolve_fraud_case john_session ''confirmed_fraud'' ''no''
        example_world)))). valid_case_status (stored_status x))"
    and h: "length (db_file (snd (snd (resolve_fraud_case john_session ''confirmed_fraud'' ''no''
        example_world)))) = length (db_file example_world)"
    and i: "snd (snd (lookup_customer john_session ''jane'' example_world)) = example_world"
    by blast+
  have "valid_case_status (stored_status (db_file (snd (snd (resolve_fraud_case john_session
        ''confirmed_fraud'' ''no'' example_world))) ! 0))"
    using g h f by simp
  then show ?thesis using c d e h f i by simp
qed

text \<open>
  C6 as stated fails: a record that is \<^verbatim>\<open>confirmed_safe\<close> becomes \<^verbatim>\<open>confirmed_fraud\<close> by a
  further resolution, and a status argument outside the three values is stored as it is.
\<close>

theorem resolve_again_counterexample:
  "active_case john_session = Some john_case \<and>
   js_case_status (db_file resolved_world ! 0) = Some ''confirmed_safe'' \<and>
   js_case_status (db_file (snd (snd (resolve_fraud_case john_session ''confirmed_fraud''
        ''User denied transaction.'' resolved_world))) ! 0) = Some ''confirmed_fraud'' \<and>
   js_case_status (db_file (snd (snd (resolve_fraud_case john_session ''maybe''
        ''unsure'' resolved_world))) ! 0) = Some ''maybe''"
  by code_simp

subsection \<open>The outcomes of a lookup\<close>

text \<open>
  C7. For every query, \<^verbatim>\<open>lookup_customer\<close> leaves the file as it is (it never calls
  \<^verbatim>\<open>save_db\<close>), and either answers \<^verbatim>\<open>NO_MATCH\<close> and leaves the userdata as it is, or
  answers \<^verbatim>\<open>FOUND\<close> followed by the security identifier, the amount, the name, the source and
  the time of a matching record of the file, and sets the active case to a copy of that
  record.
\<close>

theorem lookup_customer_outcomes:
  "snd (snd (lookup_customer ud name w)) = w \<and>
   (fst (lookup_customer ud name w) = ''NO_MATCH'' \<and> fst (snd (lookup_customer ud name w)) = ud
    \<or> (\<exists>r \<in> set (db_file w).
          name_matches (lower (strip name)) r \<and>
          fst (lookup_customer ud name w) =
            ''FOUND|SecurityID='' @ js_securityIdentifier r @
            ''|Amount='' @ js_transactionAmount r @
            ''|Name='' @ js_transactionName r @
            ''|Source='' @ js_transactionSource r @
            ''|Time='' @ js_transactionTime r \<and>
          fst (snd (lookup_customer ud name w)) =
            ud\<lparr>active_case := Some
              \<lparr> userName = js_userName r,
                securityIdentifier = js_securityIdentifier r,
                cardEnding = js_cardEnding r,
                transactionName = js_transactionName r,
                transactionAmount = js_transactionAmount r,
                transactionTime = js_transactionTime r,
                transactionSource = js_transactionSource r,
                case_status =
                  (case js_case_status r of None \<Rightarrow> ''pending_review'' | Some s \<Rightarrow> s),
                notes = (case js_notes r of None \<Rightarrow> [] | Some s \<Rightarrow> s) \<rparr>\<rparr>))"
proof (cases "find (name_matches (lower (strip name))) (db_file w)")
  case None
  then show ?thesis by (simp add: lookup_customer_None)
next
  case (Some r)
  have mem: "r \<in> set (db_file w)" and m: "name_matches (lower (strip name)) r"
    using find_SomeD [OF Some] by simp_all
  have eq: "lookup_customer ud name w =
      (found_message r, ud\<lparr>active_case := Some (FraudCase_init r)\<rparr>, w)"
    by (rule lookup_customer_Some [OF Some])
  show ?thesis
    unfolding eq fst_conv snd_conv
    by (intro conjI disjI2 bexI [of _ r])
       (simp_all add: mem m found_message_def FraudCase_init_def)
qed

theorem lookup_customer_outcomes_witness:
  "snd (snd (lookup_customer no_session ''john'' example_world)) = example_world \<and>
   fst (lookup_customer no_session ''john'' example_world) \<noteq> ''NO_MATCH'' \<and>
   fst (lookup_customer no_session ''john'' example_world) =
     ''FOUND|SecurityID=1234|Amount=$1500|Name=ABC Industry|Source=alibaba.com|Time=2 AM'' \<and>
   fst (snd (lookup_customer no_session ''john'' example_world)) =
     \<lparr>active_case = Some
        \<lparr> userName = ''John'', securityIdentifier = ''1234'', cardEnding = ''4242'',
          transactionName = ''ABC Industry'', transactionAmount = ''$1500'',
          transactionTime = ''2 AM'', transactionSource = ''alibaba.com'',
          case_status = ''pending_review'', notes = [] \<rparr>\<rparr>"
proof -
  have a: "fst (lookup_customer no_session ''john'' example_world) =
     ''FOUND|SecurityID=1234|Amount=$1500|Name=ABC Industry|Source=alibaba.com|Time=2 AM''"
    by code_simp
  have b: "fst (snd (lookup_customer no_session ''john'' example_world)) =
     \<lparr>active_case = Some
        \<lparr> userName = ''John'', securityIdentifier = ''1234'', cardEnding = ''4242'',
          transactionName = ''ABC Industry'', transactionAmount = ''$1500'',
          transactionTime = ''2 AM'', transactionSource = ''alibaba.com'',
          case_status = ''pending_review'', notes = [] \<rparr>\<rparr>"
    by code_simp
  from lookup_customer_outcomes [of no_session "''john''" example_world]
  have "snd (snd (lookup_customer no_session ''john'' example_world)) = example_world"
    by blast
  then show ?thesis using a b by simp
qed

subsection \<open>The blank query\<close>

text \<open>
  C9. When the file is not empty and the stripped and lowered query is the empty string,
  \<^verbatim>\<open>lookup_customer\<close> answers \<^verbatim>\<open>FOUND\<close> with the first record of the file and loads it, since
  the empty string is a substring of every name.
\<close>

theorem lookup_blank_name:
  assumes "lower (strip name) = []" and "db_file w = r # rest"
  shows "lookup_customer ud name w =
           (''FOUND|SecurityID='' @ js_securityIdentifier r @
            ''|Amount='' @ js_transactionAmount r @
            ''|Name='' @ js_transactionName r @
            ''|Source='' @ js_transactionSource r @
            ''|Time='' @ js_transactionTime r,
            ud\<lparr>active_case := Some
              \<lparr> userName = js_userName r,
                securityIdentifier = js_securityIdentifier r,
                cardEnding = js_cardEnding r,
                transactionName = js_transactionName r,
                transactionAmount = js_transactionAmount r,
                transactionTime = js_transactionTime r,
                transactionSource = js_transactionSource r,
                case_status =
                  (case js_case_status r of None \<Rightarrow> ''pending_review'' | Some s \<Rightarrow> s),
                notes = (case js_notes r of None \<Rightarrow> [] | Some s \<Rightarrow> s) \<rparr>\<rparr>,
            w)"
proof -
  have "find (name_matches (lower (strip name))) (db_file w) = Some r"
    using assms by (simp add: name_matches_def str_in_Nil)
  then have "lookup_customer ud name w =
      (found_message r, ud\<lparr>active_case := Some (FraudCase_init r)\<rparr>, w)"
    by (rule lookup_customer_Some)
  then show ?thesis by (simp add: found_message_def FraudCase_init_def)
qed

theorem lookup_blank_name_witness:
  "lower (strip ''  '') = [] \<and> db_file example_world = jane_item # [john_item] \<and>
   lookup_customer no_session ''  '' example_world =
     (''FOUND|SecurityID=5678|Amount=$20|Name=Shop|Source=shop.example|Time=noon'',
      \<lparr>active_case = Some
        \<lparr> userName = ''Jane'', securityIdentifier = ''5678'', cardEnding = ''1111'',
          transactionName = ''Shop'', transactionAmount = ''$20'',
          transactionTime = ''noon'', transactionSource = ''shop.example'',
          case_status = ''pending_review'', notes = [] \<rparr>\<rparr>,
      example_world)"
proof -
  have a: "lower (strip ''  '') = []" by code_simp
  have b: "db_file example_world = jane_item # [john_item]" by code_simp
  have c: "js_securityIdentifier jane_item = ''5678''" "js_transactionAmount jane_item = ''$20''"
    "js_transactionName jane_item = ''Shop''" "js_transactionSource jane_item = ''shop.example''"
    "js_transactionTime jane_item = ''noon''" "js_userName jane_item = ''Jane''"
    "js_cardEnding jane_item = ''1111''" "js_case_status jane_item = None"
    "js_notes jane_item = None"
    by (simp_all add: jane_item_def)
  have d: "no_session = \<lparr>active_case = None\<rparr>" by (simp add: no_session_def)
  from lookup_blank_name [OF a b, of no_session]
  show ?thesis using a b c d by simp
qed

subsection \<open>Records that share a name\<close>

text \<open>
  C10. A successful \<^verbatim>\<open>resolve_fraud_case\<close> replaces the first record in file order whose
  \<^verbatim>\<open>userName\<close> equals that of the active case; the records before it and all the records
  after it, those with the same name among them, are unchanged.
\<close>

theorem resolve_updates_first_record_only:
  assumes "active_case ud = Some c"
    and "db_file w = pre @ r # post"
    and "\<forall>x \<in> set pre. js_userName x \<noteq> userName c"
    and "js_userName r = userName c"
  shows "db_file (snd (snd (resolve_fraud_case ud st nt w))) =
           pre @ asdict (c\<lparr>case_status := st, notes := nt\<rparr>) # post"
  using resolve_fraud_case_Some [OF assms(1), of st nt w]
    update_db_first_match [of pre "c\<lparr>case_status := st, notes := nt\<rparr>" r post] assms(2-4)
  by simp

theorem resolve_updates_first_record_only_witness:
  "active_case john_session = Some john_case \<and>
   db_file twin_world = [jane_item] @ john_item # [john_twin_item] \<and>
   js_userName jane_item \<noteq> userName john_case \<and>
   js_userName john_item = userName john_case \<and>
   js_userName john_twin_item = userName john_case \<and>
   db_file (snd (snd (resolve_fraud_case john_session ''confirmed_safe'' ''ok'' twin_world))) =
     [jane_item] @ asdict (john_case\<lparr>case_status := ''confirmed_safe'', notes := ''ok''\<rparr>)
       # [john_twin_item]"
proof -
  have a: "active_case john_session = Some john_case" by code_simp
  have b: "db_file twin_world = [jane_item] @ john_item # [john_twin_item]" by code_simp
  have c: "\<forall>x \<in> set [jane_item]. js_userName x \<noteq> userName john_case" by code_simp
  have c': "js_userName jane_item \<noteq> userName john_case" by code_simp
  have d: "js_userName john_item = userName john_case" by code_simp
  have e: "js_userName john_twin_item = userName john_case" by code_simp
  from resolve_updates_first_record_only [OF a b c d, of "''confirmed_safe''" "''ok''"]
  show ?thesis using a b c' d e by simp
qed

end
